theory Spec2Isabelle
  imports Main
begin

section \<open>Strings\<close>

text \<open>
  Source strings are modelled as \<^typ>\<open>string\<close>: lists of code units below 256. The
  two characters that cannot be written inside a literal get names.
\<close>

abbreviation dquote :: char where
  "dquote \<equiv> CHR 0x22"

abbreviation backslash :: char where
  "backslash \<equiv> CHR 0x5C"

text \<open>
  \<^verbatim>\<open>String.prototype.trim\<close> removes white space and line terminators from both ends.
  Below 256 these are TAB, LF, VT, FF, CR, SP and NBSP.
\<close>

definition is_white_space :: "char \<Rightarrow> bool" where
  "is_white_space c =
     (c = CHR 0x09 \<or> c = CHR 0x0A \<or> c = CHR 0x0B \<or> c = CHR 0x0C \<or> c = CHR 0x0D \<or>
      c = CHR 0x20 \<or> c = CHR 0xA0)"

definition trimStart :: "string \<Rightarrow> string" where
  "trimStart s = dropWhile is_white_space s"

definition trimEnd :: "string \<Rightarrow> string" where
  "trimEnd s = rev (dropWhile is_white_space (rev s))"

definition trim :: "string \<Rightarrow> string" where
  "trim s = trimEnd (trimStart s)"

section \<open>Data model\<close>

text \<open>
  Modelled from the spec: the declarations of \<^verbatim>\<open>Template\<close> and \<^verbatim>\<open>RowData\<close> live in
  \<^verbatim>\<open>./types\<close>, which is not among the sources. The spec gives a template as
  \<^verbatim>\<open>{ name: string, vans: ordered sequence of string }\<close> and a row as
  \<^verbatim>\<open>{ id, van, vanOut, eWaybill, invoice }\<close>; the object literals of the three
  application versions use exactly these fields. The first version's rows have no
  \<^verbatim>\<open>vanOut\<close>, so the later row type is an extension of the first one.

  A row id is the result of \<^verbatim>\<open>crypto.randomUUID()\<close>. It is an opaque token that is only
  ever compared for equality; it is modelled as a natural number drawn from a counter, so
  that no two calls return the same token.
\<close>

type_synonym uuid = nat

record Template =
  name :: string
  vans :: "string list"

record RowData_v1 =
  id_row :: uuid
  van :: string
  eWaybill :: string
  invoice :: string

record RowData = RowData_v1 +
  vanOut :: string

text \<open>
  The part of the component state that the template store touches, together with the
  browser objects it talks to: \<^verbatim>\<open>localStorage\<close> (a key-value store of strings), the
  messages shown by \<^verbatim>\<open>alert\<close> and those written by \<^verbatim>\<open>console.error\<close>, in the order
  they were issued, the number of tokens \<^verbatim>\<open>crypto.randomUUID\<close> has handed out, and the
  value of the template select box.
\<close>

record 'r app_state =
  rows :: "'r list"
  templates :: "Template list"
  localStorage :: "string \<rightharpoonup> string"
  alerts :: "string list"
  console :: "string list"
  uuid_count :: nat
  select_value :: string

definition TEMPLATES_STORAGE_KEY :: string where
  "TEMPLATES_STORAGE_KEY = ''van_bill_manager_templates''"

section \<open>JSON text of a template collection\<close>

text \<open>
  \<^verbatim>\<open>JSON.stringify\<close> applied to an array of templates. A string is quoted with the
  escapes of ECMA-262 (QuoteJSONString): the quote and the backslash are escaped, the
  control characters have a short escape or a four-digit lower-case hexadecimal one.
\<close>

definition hex_digit :: "nat \<Rightarrow> char" where
  "hex_digit n = (if n < 10 then char_of (48 + n) else char_of (87 + n))"

definition quote_char :: "char \<Rightarrow> string" where
  "quote_char c =
     (if c = dquote then [backslash, dquote]
      else if c = backslash then [backslash, backslash]
      else if c = CHR 0x08 then [backslash, CHR ''b'']
      else if c = CHR 0x0C then [backslash, CHR ''f'']
      else if c = CHR 0x0A then [backslash, CHR ''n'']
      else if c = CHR 0x0D then [backslash, CHR ''r'']
      else if c = CHR 0x09 then [backslash, CHR ''t'']
      else if (of_char c :: nat) < 32 then
        [backslash, CHR ''u'', CHR ''0'', CHR ''0'',
         hex_digit (of_char c div 16), hex_digit (of_char c mod 16)]
      else [c])"

definition QuoteJSONString :: "string \<Rightarrow> string" where
  "QuoteJSONString s = dquote # concat (map quote_char s) @ [dquote]"

fun join_comma :: "string list \<Rightarrow> string" where
  "join_comma [] = []"
| "join_comma [x] = x"
| "join_comma (x # y # ys) = x @ CHR '','' # join_comma (y # ys)"

definition stringify_array :: "string list \<Rightarrow> string" where
  "stringify_array items = CHR ''['' # join_comma items @ '']''"

definition stringify_template :: "Template \<Rightarrow> string" where
  "stringify_template t =
     CHR ''{'' # QuoteJSONString ''name'' @ CHR '':'' # QuoteJSONString (name t) @
     CHR '','' # QuoteJSONString ''vans'' @ CHR '':'' #
     stringify_array (map QuoteJSONString (vans t)) @ ''}''"

definition JSON_stringify :: "Template list \<Rightarrow> string" where
  "JSON_stringify ts = stringify_array (map stringify_template ts)"

section \<open>Saving a template\<close>

text \<open>
  \<^verbatim>\<open>handleSaveTemplate\<close> of \<^verbatim>\<open>App.tsx\<close>. The argument is what \<^verbatim>\<open>prompt\<close> returned:
  \<open>None\<close> when the dialog was cancelled (\<^verbatim>\<open>null\<close>), the entered text otherwise. The
  test \<^verbatim>\<open>templateName && ...\<close> fails for \<^verbatim>\<open>null\<close> and for the empty string. Writing
  to \<^verbatim>\<open>localStorage\<close> is taken to succeed (the quota is not modelled).
\<close>

definition handleSaveTemplate ::
  "string option \<Rightarrow> RowData_v1 app_state \<Rightarrow> RowData_v1 app_state" where
  "handleSaveTemplate templateName s =
     (case templateName of
        None \<Rightarrow> s
      | Some entered \<Rightarrow>
          if entered \<noteq> [] \<and> trim entered \<noteq> [] then
            let vs = filter (\<lambda>v. trim v \<noteq> []) (map van (rows s)) in
            if length vs = 0 then
              s\<lparr>alerts := alerts s @
                [''Cannot save an empty template. Please add VANs to the table.'']\<rparr>
            else
              let newTemplate = \<lparr>name = trim entered, vans = vs\<rparr>;
                  updatedTemplates =
                    filter (\<lambda>t. name t \<noteq> name newTemplate) (templates s) @ [newTemplate]
              in s\<lparr>templates := updatedTemplates,
                   localStorage :=
                     (localStorage s)(TEMPLATES_STORAGE_KEY \<mapsto> JSON_stringify updatedTemplates),
                   alerts := alerts s @
                     [''Template '' @ [dquote] @ name newTemplate @ [dquote] @ '' saved!'']\<rparr>
          else s)"

text \<open>The same handler in the second version (with the \<^verbatim>\<open>vanOut\<close> column).\<close>

definition handleSaveTemplate_v2 :: "string option \<Rightarrow> RowData app_state \<Rightarrow> RowData app_state" where
  "handleSaveTemplate_v2 templateName s =
     (case templateName of
        None \<Rightarrow> s
      | Some entered \<Rightarrow>
          if entered \<noteq> [] \<and> trim entered \<noteq> [] then
            let vs = filter (\<lambda>v. trim v \<noteq> []) (map van (rows s)) in
            if length vs = 0 then
              s\<lparr>alerts := alerts s @
                [''Cannot save an empty template. Please add VANs to the table.'']\<rparr>
            else
              let newTemplate = \<lparr>name = trim entered, vans = vs\<rparr>;
                  updatedTemplates =
                    filter (\<lambda>t. name t \<noteq> name newTemplate) (templates s) @ [newTemplate]
              in s\<lparr>templates := updatedTemplates,
                   localStorage :=
                     (localStorage s)(TEMPLATES_STORAGE_KEY \<mapsto> JSON_stringify updatedTemplates),
                   alerts := alerts s @
                     [''Template '' @ [dquote] @ name newTemplate @ [dquote] @ '' saved!'']\<rparr>
          else s)"

text \<open>The same handler in the third version; only the text of the first alert differs.\<close>

definition handleSaveTemplate_v3 :: "string option \<Rightarrow> RowData app_state \<Rightarrow> RowData app_state" where
  "handleSaveTemplate_v3 templateName s =
     (case templateName of
        None \<Rightarrow> s
      | Some entered \<Rightarrow>
          if entered \<noteq> [] \<and> trim entered \<noteq> [] then
            let vs = filter (\<lambda>v. trim v \<noteq> []) (map van (rows s)) in
            if length vs = 0 then
              s\<lparr>alerts := alerts s @ [''Cannot save an empty template.'']\<rparr>
            else
              let newTemplate = \<lparr>name = trim entered, vans = vs\<rparr>;
                  updatedTemplates =
                    filter (\<lambda>t. name t \<noteq> name newTemplate) (templates s) @ [newTemplate]
              in s\<lparr>templates := updatedTemplates,
                   localStorage :=
                     (localStorage s)(TEMPLATES_STORAGE_KEY \<mapsto> JSON_stringify updatedTemplates),
                   alerts := alerts s @
                     [''Template '' @ [dquote] @ name newTemplate @ [dquote] @ '' saved!'']\<rparr>
          else s)"

section \<open>Loading a template\<close>

text \<open>
  \<^verbatim>\<open>crypto.randomUUID()\<close>: returns the next token and advances the counter.
\<close>

definition randomUUID :: "nat \<Rightarrow> uuid \<times> nat" where
  "randomUUID c = (c, Suc c)"

text \<open>
  The callback of \<^verbatim>\<open>template.vans.map\<close> in \<^verbatim>\<open>handleLoadTemplate\<close>, applied from left to
  right with the counter threaded through.
\<close>

fun newRows :: "nat \<Rightarrow> string list \<Rightarrow> RowData list \<times> nat" where
  "newRows c [] = ([], c)"
| "newRows c (v # vs) =
     (let (i, c1) = randomUUID c;
          r = \<lparr>id_row = i, van = v, eWaybill = [], invoice = [], vanOut = []\<rparr>;
          (rs, c2) = newRows c1 vs
      in (r # rs, c2))"

text \<open>
  \<^verbatim>\<open>handleLoadTemplate\<close> of the second version. \<open>templateName\<close> is the value of the select
  box carried by the event; \<open>confirmed\<close> is what \<^verbatim>\<open>window.confirm\<close> answers, and it is
  asked only when the table is not empty.
\<close>

definition handleLoadTemplate :: "string \<Rightarrow> bool \<Rightarrow> RowData app_state \<Rightarrow> RowData app_state" where
  "handleLoadTemplate templateName confirmed s =
     (if templateName = [] then s
      else if length (rows s) > 0 \<and> \<not> confirmed then s\<lparr>select_value := []\<rparr>
      else
        (case find (\<lambda>t. name t = templateName) (templates s) of
           Some template \<Rightarrow>
             let (rs, c) = newRows (uuid_count s) (vans template)
             in s\<lparr>rows := rs, uuid_count := c, select_value := []\<rparr>
         | None \<Rightarrow> s\<lparr>select_value := []\<rparr>))"

section \<open>The offline asset cache\<close>

subsection \<open>Requests, responses and promises\<close>

record Request =
  url :: string
  mode :: string

record Response =
  status :: nat
  type :: string
  body :: string

text \<open>
  The values that flow through the worker's promise chains: \<^verbatim>\<open>undefined\<close>, a response
  object, or a promise, which is settled either way when the handler inspects it.
\<close>

datatype js_value = Undefined | Resp Response | Promise js_promise
  and js_promise = Fulfilled js_value | Rejected string

text \<open>\<^verbatim>\<open>ToBoolean\<close>: \<^verbatim>\<open>undefined\<close> is falsy, every object (a promise too) is truthy.\<close>

fun ToBoolean :: "js_value \<Rightarrow> bool" where
  "ToBoolean Undefined = False"
| "ToBoolean (Resp r) = True"
| "ToBoolean (Promise p) = True"

text \<open>The operator \<^verbatim>\<open>||\<close>: the left operand if it is truthy, else the right one.\<close>

definition js_or :: "js_value \<Rightarrow> js_value \<Rightarrow> js_value" where
  "js_or a b = (if ToBoolean a then a else b)"

text \<open>
  Resolving a promise with a value: a promise is adopted (its settlement becomes the
  settlement of the outer promise), any other value fulfils it.
\<close>

fun resolve :: "js_value \<Rightarrow> js_promise" where
  "resolve (Promise (Fulfilled v)) = resolve v"
| "resolve (Promise (Rejected e)) = Rejected e"
| "resolve v = Fulfilled v"

text \<open>\<^verbatim>\<open>p.then(f)\<close> and \<^verbatim>\<open>p.catch(f)\<close> on a settled promise.\<close>

definition then_promise :: "js_promise \<Rightarrow> (js_value \<Rightarrow> js_value) \<Rightarrow> js_promise" where
  "then_promise p f = (case p of Fulfilled v \<Rightarrow> resolve (f v) | Rejected e \<Rightarrow> Rejected e)"

definition catch_promise :: "js_promise \<Rightarrow> (string \<Rightarrow> js_value) \<Rightarrow> js_promise" where
  "catch_promise p f = (case p of Fulfilled v \<Rightarrow> Fulfilled v | Rejected e \<Rightarrow> resolve (f e))"

text \<open>
  What the client sees after \<^verbatim>\<open>event.respondWith(p)\<close>: the response the promise is
  fulfilled with, or a network error when the promise is rejected or is fulfilled with
  something that is not a response.
\<close>

datatype outcome = Served Response | NetworkError

fun respondWith :: "js_promise \<Rightarrow> outcome" where
  "respondWith (Fulfilled (Resp r)) = Served r"
| "respondWith p = NetworkError"

subsection \<open>Cache storage and network\<close>

text \<open>
  A cache container maps request URLs to stored responses; the cache storage holds the
  named containers in creation order. The network is the environment: it answers a URL
  with a response or not at all (\<^verbatim>\<open>fetch\<close> rejects). The worker state records every
  network request issued and every line written by \<^verbatim>\<open>console.error\<close>.
\<close>

type_synonym cache = "(string \<times> Response) list"

type_synonym cache_storage = "(string \<times> cache) list"

record sw_state =
  caches :: cache_storage
  network :: "string \<rightharpoonup> Response"
  requested :: "string list"
  sw_console :: "string list"

definition CACHE_NAME :: string where
  "CACHE_NAME = ''van-bill-manager-v7''"

definition URLS_TO_CACHE :: "string list" where
  "URLS_TO_CACHE =
     [''/'', ''/index.html'', ''/index.tsx'', ''/App.tsx'', ''/types.ts'',
      ''/components/icons.tsx'', ''https://cdn.tailwindcss.com'',
      ''https://cdnjs.cloudflare.com/ajax/libs/html-to-image/1.11.11/html-to-image.min.js'']"

text \<open>\<^verbatim>\<open>fetch(request)\<close>: the request goes out; the promise settles as the network answers.\<close>

definition fetch :: "string \<Rightarrow> sw_state \<Rightarrow> js_promise \<times> sw_state" where
  "fetch u s =
     ((case network s u of
         Some r \<Rightarrow> Fulfilled (Resp r)
       | None \<Rightarrow> Rejected ''TypeError: Failed to fetch''),
      s\<lparr>requested := requested s @ [u]\<rparr>)"

text \<open>
  \<^verbatim>\<open>caches.match(request)\<close>: a promise fulfilled with the first stored response for the
  URL, searching the containers in creation order, or with \<^verbatim>\<open>undefined\<close>.
\<close>

fun storage_match :: "cache_storage \<Rightarrow> string \<Rightarrow> Response option" where
  "storage_match [] u = None"
| "storage_match ((n, c) # cs) u =
     (case map_of c u of Some r \<Rightarrow> Some r | None \<Rightarrow> storage_match cs u)"

definition caches_match :: "sw_state \<Rightarrow> string \<Rightarrow> js_value" where
  "caches_match s u =
     Promise (Fulfilled (case storage_match (caches s) u of Some r \<Rightarrow> Resp r | None \<Rightarrow> Undefined))"

subsection \<open>Fetch interception\<close>

text \<open>
  The listener for \<^verbatim>\<open>fetch\<close> events. It returns the promise handed to
  \<^verbatim>\<open>event.respondWith\<close> and the state afterwards. In the second branch both arms of the
  validity check return the response unchanged, as in the source.
\<close>

definition on_fetch :: "Request \<Rightarrow> sw_state \<Rightarrow> js_promise \<times> sw_state" where
  "on_fetch request s =
     (if mode request = ''navigate'' then
        let (p, s1) = fetch (url request) s
        in (catch_promise p
              (\<lambda>e. js_or (caches_match s1 ''/index.html'') (caches_match s1 ''/'')), s1)
      else
        (case resolve (caches_match s (url request)) of
           Rejected e \<Rightarrow> (Rejected e, s)
         | Fulfilled response \<Rightarrow>
             if ToBoolean response then (resolve response, s)
             else
               let (p, s1) = fetch (url request) s
               in (then_promise p
                     (\<lambda>response.
                        case response of
                          Resp r \<Rightarrow>
                            if status r \<noteq> 200 \<or> type r \<noteq> ''basic'' then response
                            else response
                        | _ \<Rightarrow> response), s1)))"

definition handle_fetch :: "Request \<Rightarrow> sw_state \<Rightarrow> outcome \<times> sw_state" where
  "handle_fetch request s = (let (p, s1) = on_fetch request s in (respondWith p, s1))"

subsection \<open>Install\<close>

text \<open>
  \<^verbatim>\<open>caches.open(name)\<close> returns the container of that name and creates it, empty, when
  there is none. \<^verbatim>\<open>cache.put\<close> replaces the entry of the same URL.
\<close>

definition caches_open :: "string \<Rightarrow> cache_storage \<Rightarrow> cache_storage" where
  "caches_open n cs = (if n \<in> set (map fst cs) then cs else cs @ [(n, [])])"

definition cache_put :: "string \<Rightarrow> Response \<Rightarrow> cache \<Rightarrow> cache" where
  "cache_put u r c = filter (\<lambda>e. fst e \<noteq> u) c @ [(u, r)]"

fun put_all :: "(string \<times> Response) list \<Rightarrow> cache \<Rightarrow> cache" where
  "put_all [] c = c"
| "put_all ((u, r) # es) c = put_all es (cache_put u r c)"

definition update_container :: "string \<Rightarrow> (cache \<Rightarrow> cache) \<Rightarrow> cache_storage \<Rightarrow> cache_storage" where
  "update_container n f cs = map (\<lambda>(k, c). if k = n then (k, f c) else (k, c)) cs"

text \<open>
  \<^verbatim>\<open>cache.addAll(urls)\<close> is the platform's batch operation (Service Workers, Cache
  interface): every URL is requested; when every answer has arrived and is a response
  with an ok status (200 to 299, and not the partial 206), all of them are stored; when
  any request fails or any status is not ok, the promise is rejected and nothing is
  stored.
\<close>

definition addAll_accepts :: "Response option \<Rightarrow> bool" where
  "addAll_accepts a =
     (case a of None \<Rightarrow> False | Some r \<Rightarrow> 200 \<le> status r \<and> status r \<le> 299 \<and> status r \<noteq> 206)"

fun responses_of :: "(string \<rightharpoonup> Response) \<Rightarrow> string list \<Rightarrow> (string \<times> Response) list" where
  "responses_of net [] = []"
| "responses_of net (u # us) =
     (case net u of Some r \<Rightarrow> (u, r) # responses_of net us | None \<Rightarrow> responses_of net us)"

definition cache_addAll :: "string \<Rightarrow> string list \<Rightarrow> sw_state \<Rightarrow> js_promise \<times> sw_state" where
  "cache_addAll n urls s =
     (let s1 = s\<lparr>requested := requested s @ urls\<rparr> in
      if list_all (\<lambda>u. addAll_accepts (network s u)) urls then
        (Fulfilled Undefined,
         s1\<lparr>caches := update_container n (put_all (responses_of (network s) urls)) (caches s1)\<rparr>)
      else (Rejected ''TypeError: Failed to execute addAll on Cache'', s1))"

text \<open>
  The listener for the \<^verbatim>\<open>install\<close> event. It returns the promise handed to
  \<^verbatim>\<open>event.waitUntil\<close> (the install fails exactly when that promise is rejected) and the
  state afterwards. The handler of \<^verbatim>\<open>catch\<close> logs and returns \<^verbatim>\<open>undefined\<close>.
\<close>

definition on_install :: "sw_state \<Rightarrow> js_promise \<times> sw_state" where
  "on_install s =
     (let s1 = s\<lparr>caches := caches_open CACHE_NAME (caches s)\<rparr>;
          (p, s2) = cache_addAll CACHE_NAME URLS_TO_CACHE s1
      in (case p of
            Fulfilled v \<Rightarrow> (Fulfilled v, s2)
          | Rejected err \<Rightarrow>
              (Fulfilled Undefined,
               s2\<lparr>sw_console := sw_console s2 @ [''Cache addAll failed '' @ err]\<rparr>)))"

subsection \<open>Activate\<close>

definition caches_keys :: "cache_storage \<Rightarrow> string list" where
  "caches_keys cs = map fst cs"

definition caches_delete :: "string \<Rightarrow> cache_storage \<Rightarrow> cache_storage" where
  "caches_delete n cs = filter (\<lambda>e. fst e \<noteq> n) cs"

definition cacheWhitelist :: "string list" where
  "cacheWhitelist = [CACHE_NAME]"

text \<open>
  The listener for the \<^verbatim>\<open>activate\<close> event: for every container name that
  \<^verbatim>\<open>indexOf\<close> does not find in the whitelist, the container is deleted.
\<close>

definition on_activate :: "sw_state \<Rightarrow> sw_state" where
  "on_activate s =
     s\<lparr>caches :=
         fold (\<lambda>cacheName cs.
                 if cacheName \<notin> set cacheWhitelist then caches_delete cacheName cs else cs)
           (caches_keys (caches s)) (caches s)\<rparr>"

section \<open>Reading the stored collection\<close>

text \<open>
  \<^verbatim>\<open>JSON.parse\<close>, for the texts in the layout \<^verbatim>\<open>JSON.stringify\<close> writes for an array of
  templates: no white space between tokens, the members \<^verbatim>\<open>name\<close> and \<^verbatim>\<open>vans\<close> in
  this order. A string may use every escape of the JSON grammar. The result \<open>None\<close>
  stands for the \<^verbatim>\<open>SyntaxError\<close> the parser throws; the model also gives it for a
  text in another layout and for an escape that denotes a code unit above 255, which
  are outside what is modelled.
\<close>

definition hex_value :: "char \<Rightarrow> nat option" where
  "hex_value c =
     (let n = (of_char c :: nat) in
      if 48 \<le> n \<and> n \<le> 57 then Some (n - 48)
      else if 97 \<le> n \<and> n \<le> 102 then Some (n - 87)
      else if 65 \<le> n \<and> n \<le> 70 then Some (n - 55)
      else None)"

definition hex4 :: "char \<Rightarrow> char \<Rightarrow> char \<Rightarrow> char \<Rightarrow> nat option" where
  "hex4 a b c d =
     (case (hex_value a, hex_value b, hex_value c, hex_value d) of
        (Some w, Some x, Some y, Some z) \<Rightarrow> Some (((w * 16 + x) * 16 + y) * 16 + z)
      | _ \<Rightarrow> None)"

definition unescape :: "char \<Rightarrow> char option" where
  "unescape e =
     (if e = dquote then Some dquote
      else if e = backslash then Some backslash
      else if e = CHR ''/'' then Some CHR ''/''
      else if e = CHR ''b'' then Some (CHR 0x08)
      else if e = CHR ''f'' then Some (CHR 0x0C)
      else if e = CHR ''n'' then Some (CHR 0x0A)
      else if e = CHR ''r'' then Some (CHR 0x0D)
      else if e = CHR ''t'' then Some (CHR 0x09)
      else None)"

definition prepend :: "char \<Rightarrow> (string \<times> string) option \<Rightarrow> (string \<times> string) option" where
  "prepend c res = (case res of None \<Rightarrow> None | Some (s, rest) \<Rightarrow> Some (c # s, rest))"

text \<open>
  The characters of a string after its opening quote, up to the closing quote: the
  decoded string and the text that follows. A raw control character is a syntax error.
\<close>

fun unquote :: "string \<Rightarrow> (string \<times> string) option" where
  "unquote [] = None"
| "unquote (c # cs) =
     (if c = dquote then Some ([], cs)
      else if c = backslash then
        (case cs of
           [] \<Rightarrow> None
         | e # cs1 \<Rightarrow>
             if e = CHR ''u'' then
               (case cs1 of
                  h1 # h2 # h3 # h4 # cs2 \<Rightarrow>
                    (case hex4 h1 h2 h3 h4 of
                       None \<Rightarrow> None
                     | Some n \<Rightarrow> if n < 256 then prepend (char_of n) (unquote cs2) else None)
                | _ \<Rightarrow> None)
             else
               (case unescape e of
                  None \<Rightarrow> None
                | Some ch \<Rightarrow> prepend ch (unquote cs1)))
      else if (of_char c :: nat) < 32 then None
      else prepend c (unquote cs))"

definition parse_string :: "string \<Rightarrow> (string \<times> string) option" where
  "parse_string input =
     (case input of
        [] \<Rightarrow> None
      | c # cs \<Rightarrow> if c = dquote then unquote cs else None)"

text \<open>
  The elements of a non-empty array after its opening bracket, each read by \<open>p\<close>, up to
  the closing bracket. An element parser that consumes nothing is refused, which makes
  the recursion well-founded.
\<close>

fun parse_items :: "(string \<Rightarrow> ('a \<times> string) option) \<Rightarrow> string \<Rightarrow> ('a list \<times> string) option" where
  "parse_items p input =
     (case p input of
        None \<Rightarrow> None
      | Some (x, rest) \<Rightarrow>
          (case rest of
             [] \<Rightarrow> None
           | c # rest1 \<Rightarrow>
               if c = CHR '']'' then Some ([x], rest1)
               else if c = CHR '','' then
                 (if length rest1 < length input then
                    (case parse_items p rest1 of
                       None \<Rightarrow> None
                     | Some (xs, rest2) \<Rightarrow> Some (x # xs, rest2))
                  else None)
               else None))"

definition parse_array :: "(string \<Rightarrow> ('a \<times> string) option) \<Rightarrow> string \<Rightarrow> ('a list \<times> string) option" where
  "parse_array p input =
     (case input of
        [] \<Rightarrow> None
      | c # cs \<Rightarrow>
          if c = CHR ''['' then
            (case cs of
               [] \<Rightarrow> None
             | d # ds \<Rightarrow> if d = CHR '']'' then Some ([], ds) else parse_items p cs)
          else None)"

definition expect :: "string \<Rightarrow> string \<Rightarrow> string option" where
  "expect lit input =
     (if take (length lit) input = lit then Some (drop (length lit) input) else None)"

definition parse_template :: "string \<Rightarrow> (Template \<times> string) option" where
  "parse_template input =
     (case expect (CHR ''{'' # QuoteJSONString ''name'' @ '':'') input of
        None \<Rightarrow> None
      | Some r1 \<Rightarrow>
          (case parse_string r1 of
             None \<Rightarrow> None
           | Some (n, r2) \<Rightarrow>
               (case expect (CHR '','' # QuoteJSONString ''vans'' @ '':'') r2 of
                  None \<Rightarrow> None
                | Some r3 \<Rightarrow>
                    (case parse_array parse_string r3 of
                       None \<Rightarrow> None
                     | Some (vs, r4) \<Rightarrow>
                         (case expect ''}'' r4 of
                            None \<Rightarrow> None
                          | Some r5 \<Rightarrow> Some (\<lparr>name = n, vans = vs\<rparr>, r5))))))"

definition JSON_parse :: "string \<Rightarrow> Template list option" where
  "JSON_parse input =
     (case parse_array parse_template input of
        None \<Rightarrow> None
      | Some (ts, rest) \<Rightarrow> if rest = [] then Some ts else None)"

text \<open>
  The effect that runs once when the component is mounted: the stored text, if there is
  one and it is not empty, is parsed and becomes the template collection; a parse error
  is caught and logged.
\<close>

definition loadTemplates :: "'r app_state \<Rightarrow> 'r app_state" where
  "loadTemplates s =
     (case localStorage s TEMPLATES_STORAGE_KEY of
        None \<Rightarrow> s
      | Some storedTemplates \<Rightarrow>
          if storedTemplates \<noteq> [] then
            (case JSON_parse storedTemplates of
               Some ts \<Rightarrow> s\<lparr>templates := ts\<rparr>
             | None \<Rightarrow> s\<lparr>console := console s @ [''Failed to load templates from localStorage'']\<rparr>)
          else s)"

text \<open>
  The state of a freshly created component of \<^verbatim>\<open>App.tsx\<close> over a given storage (the two
  initial rows, no templates), and the component after mounting.
\<close>

definition initial_state :: "(string \<rightharpoonup> string) \<Rightarrow> RowData_v1 app_state" where
  "initial_state storage =
     \<lparr>rows =
        [\<lparr>id_row = 0, van = ''CJB-PON'', eWaybill = ''1'', invoice = ''3''\<rparr>,
         \<lparr>id_row = 1, van = ''CJB-TVL'', eWaybill = [], invoice = ''7''\<rparr>],
      templates = [], localStorage = storage, alerts = [], console = [], uuid_count = 2,
      select_value = []\<rparr>"

definition mount :: "(string \<rightharpoonup> string) \<Rightarrow> RowData_v1 app_state" where
  "mount storage = loadTemplates (initial_state storage)"

section \<open>Comparing the versions\<close>

text \<open>
  The rows of the later versions with the \<^verbatim>\<open>vanOut\<close> column dropped: the state the first
  version would hold for the same table.
\<close>

definition drop_vanOut :: "RowData \<Rightarrow> RowData_v1" where
  "drop_vanOut r = \<lparr>id_row = id_row r, van = van r, eWaybill = eWaybill r, invoice = invoice r\<rparr>"

definition as_v1 :: "RowData app_state \<Rightarrow> RowData_v1 app_state" where
  "as_v1 s =
     \<lparr>rows = map drop_vanOut (rows s), templates = templates s,
      localStorage = localStorage s, alerts = alerts s, console = console s,
      uuid_count = uuid_count s, select_value = select_value s\<rparr>"

section \<open>Example data\<close>

text \<open>A working table of the first version and a store that already holds two templates.\<close>

definition demo_rows :: "RowData_v1 list" where
  "demo_rows =
     [\<lparr>id_row = 0, van = ''CJB-PON'', eWaybill = ''1'', invoice = ''3''\<rparr>,
      \<lparr>id_row = 1, van = ''   '', eWaybill = [], invoice = ''7''\<rparr>,
      \<lparr>id_row = 2, van = '' CJB-TVL'', eWaybill = [], invoice = []\<rparr>]"

definition demo_templates :: "Template list" where
  "demo_templates =
     [\<lparr>name = ''north'', vans = [''CJB-MAA'']\<rparr>,
      \<lparr>name = ''south'', vans = [''CJB-TVL'', ''CJB-PON'']\<rparr>,
      \<lparr>name = ''east'', vans = [''CJB-BLR'']\<rparr>]"

definition demo_state :: "RowData_v1 app_state" where
  "demo_state =
     \<lparr>rows = demo_rows, templates = demo_templates,
      localStorage = [TEMPLATES_STORAGE_KEY \<mapsto> JSON_stringify demo_templates],
      alerts = [], console = [], uuid_count = 3, select_value = []\<rparr>"

definition blank_rows_state :: "RowData_v1 app_state" where
  "blank_rows_state =
     demo_state\<lparr>rows := [\<lparr>id_row = 0, van = '' '', eWaybill = ''1'', invoice = ''3''\<rparr>]\<rparr>"

text \<open>
  Worker states for the examples: a shell document, a script, a network that answers
  every manifest URL, one that answers all but the first CDN URL, and no network at all.
\<close>

definition shell_doc :: Response where
  "shell_doc = \<lparr>status = 200, type = ''basic'', body = ''<!DOCTYPE html>''\<rparr>"

definition script_doc :: Response where
  "script_doc = \<lparr>status = 200, type = ''basic'', body = ''export default App;''\<rparr>"

definition cdn_doc :: Response where
  "cdn_doc = \<lparr>status = 200, type = ''cors'', body = ''/* library */''\<rparr>"

definition online :: "string \<rightharpoonup> Response" where
  "online =
     map_of
       [(''/'', shell_doc), (''/index.html'', shell_doc), (''/index.tsx'', script_doc),
        (''/App.tsx'', script_doc), (''/types.ts'', script_doc),
        (''/components/icons.tsx'', script_doc), (''https://cdn.tailwindcss.com'', cdn_doc),
        (''https://cdnjs.cloudflare.com/ajax/libs/html-to-image/1.11.11/html-to-image.min.js'',
         cdn_doc)]"

definition cdn_down :: "string \<rightharpoonup> Response" where
  "cdn_down = online(''https://cdn.tailwindcss.com'' := None)"

definition fresh_worker :: "(string \<rightharpoonup> Response) \<Rightarrow> sw_state" where
  "fresh_worker net = \<lparr>caches = [], network = net, requested = [], sw_console = []\<rparr>"

definition root_only_offline :: sw_state where
  "root_only_offline =
     \<lparr>caches = [(CACHE_NAME, [(''/'', shell_doc)])], network = Map.empty, requested = [],
      sw_console = []\<rparr>"

definition old_and_new :: sw_state where
  "old_and_new =
     \<lparr>caches =
        [(''van-bill-manager-v5'', [(''/'', shell_doc)]),
         (''van-bill-manager-v6'', [(''/index.html'', shell_doc)]),
         (CACHE_NAME, [(''/App.tsx'', script_doc)])],
      network = Map.empty, requested = [], sw_console = []\<rparr>"

text \<open>
  A table of the second version with one row, and a worker whose cache holds the
  application script while the network holds a newer one.
\<close>

definition loaded_table :: "RowData app_state" where
  "loaded_table =
     \<lparr>rows = [\<lparr>id_row = 0, van = ''CJB-PON'', eWaybill = ''1'', invoice = ''3'', vanOut = ''6:30 PM''\<rparr>],
      templates = demo_templates, localStorage = Map.empty, alerts = [], console = [],
      uuid_count = 1, select_value = ''south''\<rparr>"

definition cached_script :: sw_state where
  "cached_script =
     \<lparr>caches = [(CACHE_NAME, [(''/App.tsx'', script_doc)])],
      network = [''/App.tsx'' \<mapsto> cdn_doc, ''/index.tsx'' \<mapsto> script_doc],
      requested = [], sw_console = []\<rparr>"

section \<open>Properties of the template store\<close>

lemma trim_Nil: "trim [] = []"
  by (simp add: trim_def trimStart_def trimEnd_def)

lemma filter_upsert_same:
  "filter (\<lambda>t. name t = n) (filter (\<lambda>t. name t \<noteq> n) ts @ [\<lparr>name = n, vans = vs\<rparr>]) =
     [\<lparr>name = n, vans = vs\<rparr>]"
  by (simp add: filter_empty_conv)

lemma filter_upsert_other:
  "filter (\<lambda>t. name t \<noteq> n) (filter (\<lambda>t. name t \<noteq> n) ts @ [\<lparr>name = n, vans = vs\<rparr>]) =
     filter (\<lambda>t. name t \<noteq> n) ts"
  by simp

lemma templates_saved:
  assumes "trim entered \<noteq> []"
    and "filter (\<lambda>v. trim v \<noteq> []) (map van (rows s)) \<noteq> []"
  shows "templates (handleSaveTemplate (Some entered) s) =
    filter (\<lambda>t. name t \<noteq> trim entered) (templates s) @
      [\<lparr>name = trim entered, vans = filter (\<lambda>v. trim v \<noteq> []) (map van (rows s))\<rparr>]"
proof -
  from assms(1) have "entered \<noteq> []"
    using trim_Nil by auto
  with assms show ?thesis
    by (simp add: handleSaveTemplate_def Let_def)
qed

lemmas trim_eval = trim_def trimStart_def trimEnd_def is_white_space_def

text \<open>
  C3. Saving under a name that, after trimming, is the name of a stored template: the
  templates of that name in the new collection are exactly the one just saved, it is the
  last element, and the templates of other names are the old ones in their old order.
\<close>

theorem save_existing_name_upsert:
  assumes "trim entered \<noteq> []"
    and "filter (\<lambda>v. trim v \<noteq> []) (map van (rows s)) \<noteq> []"
    and "trim entered \<in> set (map name (templates s))"
  shows
    "filter (\<lambda>t. name t = trim entered) (templates (handleSaveTemplate (Some entered) s)) =
       [\<lparr>name = trim entered, vans = filter (\<lambda>v. trim v \<noteq> []) (map van (rows s))\<rparr>] \<and>
     templates (handleSaveTemplate (Some entered) s) \<noteq> [] \<and>
     last (templates (handleSaveTemplate (Some entered) s)) =
       \<lparr>name = trim entered, vans = filter (\<lambda>v. trim v \<noteq> []) (map van (rows s))\<rparr> \<and>
     filter (\<lambda>t. name t \<noteq> trim entered) (templates (handleSaveTemplate (Some entered) s)) =
       filter (\<lambda>t. name t \<noteq> trim entered) (templates s)"
  unfolding templates_saved [OF assms(1,2)]
  using filter_upsert_same filter_upsert_other by simp

theorem save_existing_name_upsert_witness:
  "trim ''  south '' = ''south'' \<and>
   templates (handleSaveTemplate (Some ''  south '') demo_state) =
     [\<lparr>name = ''north'', vans = [''CJB-MAA'']\<rparr>,
      \<lparr>name = ''east'', vans = [''CJB-BLR'']\<rparr>,
      \<lparr>name = ''south'', vans = [''CJB-PON'', '' CJB-TVL'']\<rparr>] \<and>
   filter (\<lambda>t. name t = ''south'') (templates (handleSaveTemplate (Some ''  south '') demo_state)) =
     [\<lparr>name = ''south'', vans = [''CJB-PON'', '' CJB-TVL'']\<rparr>] \<and>
   last (templates (handleSaveTemplate (Some ''  south '') demo_state)) =
     \<lparr>name = ''south'', vans = [''CJB-PON'', '' CJB-TVL'']\<rparr>"
proof -
  have n: "trim ''  south '' = ''south''"
    by (simp add: trim_eval)
  have v: "filter (\<lambda>v. trim v \<noteq> []) (map van (rows demo_state)) = [''CJB-PON'', '' CJB-TVL'']"
    by (simp add: demo_state_def demo_rows_def trim_eval)
  have t: "templates demo_state = demo_templates"
    by (simp add: demo_state_def)
  have h1: "trim ''  south '' \<noteq> []"
    by (simp add: n)
  have h2: "filter (\<lambda>v. trim v \<noteq> []) (map van (rows demo_state)) \<noteq> []"
    by (simp add: v)
  have h3: "trim ''  south '' \<in> set (map name (templates demo_state))"
    by (simp add: n t demo_templates_def)
  have all: "templates (handleSaveTemplate (Some ''  south '') demo_state) =
     [\<lparr>name = ''north'', vans = [''CJB-MAA'']\<rparr>,
      \<lparr>name = ''east'', vans = [''CJB-BLR'']\<rparr>,
      \<lparr>name = ''south'', vans = [''CJB-PON'', '' CJB-TVL'']\<rparr>]"
    by (simp add: templates_saved [OF h1 h2] n v t demo_templates_def)
  from save_existing_name_upsert [OF h1 h2 h3] n v all show ?thesis
    by simp
qed

text \<open>
  C4, as the claim states it, fails: a name that trims to empty surfaces no alert at
  all. The handler falls through its outer test and does nothing.
\<close>

theorem blank_name_no_alert_counterexample:
  "trim ''   '' = [] \<and> alerts demo_state = [] \<and>
   alerts (handleSaveTemplate (Some ''   '') demo_state) = []"
  by (simp add: handleSaveTemplate_def demo_state_def trim_eval)

text \<open>
  C4, amended. A save is rejected when the prompt was cancelled, when the entered name
  trims to empty, or when no row has a non-blank van. In the first two cases the state
  is left exactly as it was (nothing is shown); in the third the alert is shown and
  nothing else changes. In every case the template collection and the storage are
  unchanged.
\<close>

theorem save_rejected_store_unchanged:
  "handleSaveTemplate None s = s \<and>
   (trim entered = [] \<longrightarrow> handleSaveTemplate (Some entered) s = s) \<and>
   (trim entered \<noteq> [] \<and> filter (\<lambda>v. trim v \<noteq> []) (map van (rows s)) = [] \<longrightarrow>
      handleSaveTemplate (Some entered) s =
        s\<lparr>alerts := alerts s @
             [''Cannot save an empty template. Please add VANs to the table.'']\<rparr> \<and>
      templates (handleSaveTemplate (Some entered) s) = templates s \<and>
      localStorage (handleSaveTemplate (Some entered) s) = localStorage s)"
  by (auto simp: handleSaveTemplate_def Let_def trim_Nil)

theorem save_rejected_store_unchanged_witness:
  "trim ''   '' = [] \<and> handleSaveTemplate (Some ''   '') demo_state = demo_state \<and>
   trim ''west'' \<noteq> [] \<and> filter (\<lambda>v. trim v \<noteq> []) (map van (rows blank_rows_state)) = [] \<and>
   alerts (handleSaveTemplate (Some ''west'') blank_rows_state) =
     [''Cannot save an empty template. Please add VANs to the table.''] \<and>
   templates (handleSaveTemplate (Some ''west'') blank_rows_state) = demo_templates \<and>
   localStorage (handleSaveTemplate (Some ''west'') blank_rows_state) =
     localStorage blank_rows_state"
proof -
  have a: "trim ''   '' = []"
    by (simp add: trim_eval)
  have b: "trim ''west'' \<noteq> []"
    by (simp add: trim_eval)
  have c: "filter (\<lambda>v. trim v \<noteq> []) (map van (rows blank_rows_state)) = []"
    by (simp add: blank_rows_state_def trim_eval)
  have d: "alerts blank_rows_state = [] \<and> templates blank_rows_state = demo_templates"
    by (simp add: blank_rows_state_def demo_state_def)
  from save_rejected_store_unchanged [of demo_state "''   ''"]
    save_rejected_store_unchanged [of blank_rows_state "''west''"] a b c d
  show ?thesis
    by simp
qed

text \<open>
  C10. For every prior collection, prompt answer and table, the three versions of
  \<^verbatim>\<open>handleSaveTemplate\<close> leave the same template collection and the same storage
  (the same text under the same key).
\<close>

theorem save_template_versions_agree:
  "templates (handleSaveTemplate answer (as_v1 s)) = templates (handleSaveTemplate_v2 answer s) \<and>
   templates (handleSaveTemplate_v2 answer s) = templates (handleSaveTemplate_v3 answer s) \<and>
   localStorage (handleSaveTemplate answer (as_v1 s)) =
     localStorage (handleSaveTemplate_v2 answer s) \<and>
   localStorage (handleSaveTemplate_v2 answer s) = localStorage (handleSaveTemplate_v3 answer s)"
proof -
  have vans_same: "map van (rows (as_v1 s)) = map van (rows s)"
    by (simp add: as_v1_def drop_vanOut_def comp_def)
  have fields: "templates (as_v1 s) = templates s" "localStorage (as_v1 s) = localStorage s"
    by (simp_all add: as_v1_def)
  show ?thesis
    unfolding handleSaveTemplate_def handleSaveTemplate_v2_def handleSaveTemplate_v3_def
    by (simp add: Let_def vans_same fields split: option.split)
qed

section \<open>Round trip through the storage\<close>

lemma hex_value_hex_digit: "n < 16 \<Longrightarrow> hex_value (hex_digit n) = Some n"
  by (simp add: hex_value_def hex_digit_def Let_def)

lemma hex4_control: "n < 32 \<Longrightarrow>
    hex4 CHR ''0'' CHR ''0'' (hex_digit (n div 16)) (hex_digit (n mod 16)) = Some n"
proof -
  assume n: "n < 32"
  have z: "hex_value CHR ''0'' = Some 0"
    by (simp add: hex_value_def)
  from n have "n div 16 < 16" "n mod 16 < 16"
    by simp_all
  then show ?thesis
    by (simp add: hex4_def z hex_value_hex_digit)
qed

lemma unquote_quote_char: "unquote (quote_char c @ rest) = prepend c (unquote rest)"
proof -
  consider (dq) "c = dquote" | (bs) "c = backslash" | (b) "c = CHR 0x08" | (f) "c = CHR 0x0C"
    | (n) "c = CHR 0x0A" | (r) "c = CHR 0x0D" | (t) "c = CHR 0x09"
    | (ctl) "c \<notin> {dquote, backslash, CHR 0x08, CHR 0x0C, CHR 0x0A, CHR 0x0D, CHR 0x09}"
        "(of_char c :: nat) < 32"
    | (plain) "c \<notin> {dquote, backslash, CHR 0x08, CHR 0x0C, CHR 0x0A, CHR 0x0D, CHR 0x09}"
        "\<not> (of_char c :: nat) < 32"
    by auto
  then show ?thesis
  proof cases
    case ctl
    then have q: "quote_char c =
        [backslash, CHR ''u'', CHR ''0'', CHR ''0'',
         hex_digit (of_char c div 16), hex_digit (of_char c mod 16)]"
      by (simp add: quote_char_def)
    from ctl(2) have "char_of (of_char c :: nat) = c" "(of_char c :: nat) < 256"
      by simp_all
    with ctl(2) show ?thesis
      by (simp add: q hex4_control)
  next
    case plain
    then have "quote_char c = [c]"
      by (simp add: quote_char_def)
    with plain show ?thesis
      by simp
  qed (simp_all add: quote_char_def unescape_def)
qed

lemma unquote_quoted: "unquote (concat (map quote_char s) @ dquote # rest) = Some (s, rest)"
  by (induction s) (simp_all add: unquote_quote_char prepend_def)

lemma parse_string_QuoteJSONString: "parse_string (QuoteJSONString s @ rest) = Some (s, rest)"
  by (simp add: parse_string_def QuoteJSONString_def unquote_quoted)

lemma parse_items_join_comma:
  assumes "\<And>x r. p (enc x @ r) = Some (x, r)"
  shows "xs \<noteq> [] \<Longrightarrow>
    parse_items p (join_comma (map enc xs) @ CHR '']'' # rest) = Some (xs, rest)"
proof (induction xs)
  case Nil
  then show ?case by simp
next
  case (Cons x xs)
  show ?case
  proof (cases xs)
    case Nil
    then show ?thesis
      by (subst parse_items.simps) (simp add: assms)
  next
    case (Cons y ys)
    let ?more = "join_comma (map enc (y # ys)) @ CHR '']'' # rest"
    have IH: "parse_items p ?more = Some (y # ys, rest)"
      using Cons.IH Cons by simp
    have shape: "join_comma (map enc (x # xs)) @ CHR '']'' # rest = enc x @ CHR '','' # ?more"
      by (simp add: Cons)
    have "parse_items p (enc x @ CHR '','' # ?more) = Some (x # y # ys, rest)"
      using IH by (subst parse_items.simps) (simp add: assms del: parse_items.simps)
    then show ?thesis
      unfolding shape by (simp add: Cons del: parse_items.simps)
  qed
qed

lemma parse_array_stringify_array:
  assumes "\<And>x r. p (enc x @ r) = Some (x, r)"
    and "\<And>x. enc x \<noteq> [] \<and> hd (enc x) \<noteq> CHR '']''"
  shows "parse_array p (stringify_array (map enc xs) @ rest) = Some (xs, rest)"
proof (cases xs)
  case Nil
  then show ?thesis
    by (simp add: parse_array_def stringify_array_def)
next
  case (Cons x ys)
  let ?items = "join_comma (map enc xs) @ CHR '']'' # rest"
  from assms(2) [of x] obtain d ds where e: "enc x = d # ds" and d: "d \<noteq> CHR '']''"
    by (cases "enc x") auto
  have "\<exists>tl. join_comma (map enc xs) = d # tl"
    by (cases ys) (simp_all add: Cons e)
  then obtain tl where j: "?items = d # tl @ CHR '']'' # rest"
    by auto
  have items: "parse_items p ?items = Some (xs, rest)"
    using parse_items_join_comma [of p enc xs rest] assms(1) Cons by simp
  have "parse_array p (CHR ''['' # ?items) = Some (xs, rest)"
    unfolding parse_array_def j [symmetric] using j d items
    by (simp del: parse_items.simps)
  then show ?thesis
    by (simp add: stringify_array_def del: parse_items.simps)
qed

lemma expect_prefix: "expect lit (lit @ r) = Some r"
  by (simp add: expect_def)

lemma QuoteJSONString_head: "QuoteJSONString s \<noteq> [] \<and> hd (QuoteJSONString s) \<noteq> CHR '']''"
  by (simp add: QuoteJSONString_def)

lemma parse_template_stringify_template:
  "parse_template (stringify_template t @ rest) = Some (t, rest)"
proof -
  let ?k1 = "CHR ''{'' # QuoteJSONString ''name'' @ '':''"
  let ?k2 = "CHR '','' # QuoteJSONString ''vans'' @ '':''"
  let ?r4 = "''}'' @ rest"
  let ?r3 = "stringify_array (map QuoteJSONString (vans t)) @ ?r4"
  let ?r2 = "?k2 @ ?r3"
  let ?r1 = "QuoteJSONString (name t) @ ?r2"
  have shape: "stringify_template t @ rest = ?k1 @ ?r1"
    by (simp add: stringify_template_def)
  have s1: "expect ?k1 (?k1 @ ?r1) = Some ?r1"
    by (rule expect_prefix)
  have s2: "parse_string ?r1 = Some (name t, ?r2)"
    by (rule parse_string_QuoteJSONString)
  have s3: "expect ?k2 ?r2 = Some ?r3"
    by (rule expect_prefix)
  have s4: "parse_array parse_string ?r3 = Some (vans t, ?r4)"
    by (rule parse_array_stringify_array [OF parse_string_QuoteJSONString QuoteJSONString_head])
  have s5: "expect ''}'' ?r4 = Some rest"
    by (rule expect_prefix)
  show ?thesis
    unfolding shape parse_template_def s1 option.case s2 prod.case s3 s4 s5
    by simp
qed

lemma stringify_template_head:
  "stringify_template t \<noteq> [] \<and> hd (stringify_template t) \<noteq> CHR '']''"
  by (simp add: stringify_template_def)

lemma JSON_parse_stringify: "JSON_parse (JSON_stringify ts) = Some ts"
proof -
  have "parse_array parse_template (stringify_array (map stringify_template ts) @ []) =
      Some (ts, [])"
    by (rule parse_array_stringify_array
        [OF parse_template_stringify_template stringify_template_head])
  then show ?thesis
    by (simp add: JSON_parse_def JSON_stringify_def)
qed

lemma JSON_stringify_nonempty: "JSON_stringify ts \<noteq> []"
  by (simp add: JSON_stringify_def stringify_array_def)

text \<open>
  C9. After a successful save, a component created over the storage the save left
  behind lists exactly the collection the saving component holds, and the template just
  saved, with its name and its van sequence, is in it.
\<close>

theorem save_then_reload_round_trip:
  assumes "trim entered \<noteq> []"
    and "filter (\<lambda>v. trim v \<noteq> []) (map van (rows s)) \<noteq> []"
  shows
    "templates (mount (localStorage (handleSaveTemplate (Some entered) s))) =
       templates (handleSaveTemplate (Some entered) s) \<and>
     \<lparr>name = trim entered, vans = filter (\<lambda>v. trim v \<noteq> []) (map van (rows s))\<rparr>
       \<in> set (templates (mount (localStorage (handleSaveTemplate (Some entered) s))))"
proof -
  let ?s' = "handleSaveTemplate (Some entered) s"
  from assms(1) have ne: "entered \<noteq> []"
    using trim_Nil by auto
  have stored: "localStorage ?s' TEMPLATES_STORAGE_KEY = Some (JSON_stringify (templates ?s'))"
    using ne assms by (simp add: handleSaveTemplate_def Let_def)
  have "templates (mount (localStorage ?s')) = templates ?s'"
    by (simp add: mount_def loadTemplates_def initial_state_def stored JSON_stringify_nonempty
        JSON_parse_stringify)
  then show ?thesis
    by (simp add: templates_saved [OF assms])
qed

theorem save_then_reload_round_trip_witness:
  "trim ''  south '' \<noteq> [] \<and>
   filter (\<lambda>v. trim v \<noteq> []) (map van (rows demo_state)) \<noteq> [] \<and>
   templates (mount (localStorage (handleSaveTemplate (Some ''  south '') demo_state))) =
     [\<lparr>name = ''north'', vans = [''CJB-MAA'']\<rparr>,
      \<lparr>name = ''east'', vans = [''CJB-BLR'']\<rparr>,
      \<lparr>name = ''south'', vans = [''CJB-PON'', '' CJB-TVL'']\<rparr>]"
proof -
  have n: "trim ''  south '' = ''south''"
    by (simp add: trim_eval)
  have v: "filter (\<lambda>v. trim v \<noteq> []) (map van (rows demo_state)) = [''CJB-PON'', '' CJB-TVL'']"
    by (simp add: demo_state_def demo_rows_def trim_eval)
  have h1: "trim ''  south '' \<noteq> []"
    by (simp add: n)
  have h2: "filter (\<lambda>v. trim v \<noteq> []) (map van (rows demo_state)) \<noteq> []"
    by (simp add: v)
  have t: "templates demo_state = demo_templates"
    by (simp add: demo_state_def)
  have saved: "templates (handleSaveTemplate (Some ''  south '') demo_state) =
     [\<lparr>name = ''north'', vans = [''CJB-MAA'']\<rparr>,
      \<lparr>name = ''east'', vans = [''CJB-BLR'']\<rparr>,
      \<lparr>name = ''south'', vans = [''CJB-PON'', '' CJB-TVL'']\<rparr>]"
    by (simp add: templates_saved [OF h1 h2] n v t demo_templates_def)
  from save_then_reload_round_trip [OF h1 h2] saved h1 h2 show ?thesis
    by simp
qed

section \<open>Properties of the offline asset cache\<close>

lemmas sw_eval =
  handle_fetch_def on_fetch_def fetch_def caches_match_def catch_promise_def then_promise_def
  js_or_def

text \<open>
  C1. Navigation while the network is down, with the root document cached and
  \<^verbatim>\<open>/index.html\<close> not: the left operand of \<^verbatim>\<open>||\<close> is a promise, hence truthy, so the
  lookup of \<^verbatim>\<open>/\<close> is never used; the promise is fulfilled with \<^verbatim>\<open>undefined\<close> and the
  client gets a network error although a shell document is cached.
\<close>

theorem navigation_root_fallback_unused:
  "storage_match (caches root_only_offline) ''/'' = Some shell_doc \<and>
   storage_match (caches root_only_offline) ''/index.html'' = None \<and>
   network root_only_offline ''/'' = None \<and>
   fst (handle_fetch \<lparr>url = ''/'', mode = ''navigate''\<rparr> root_only_offline) = NetworkError"
  by (simp add: sw_eval root_only_offline_def)

text \<open>What the navigation branch does in general: the cached index document or nothing.\<close>

lemma navigation_offline_serves_index_only:
  assumes "mode request = ''navigate''" and "network s (url request) = None"
  shows "fst (handle_fetch request s) =
    (case storage_match (caches s) ''/index.html'' of Some r \<Rightarrow> Served r | None \<Rightarrow> NetworkError)"
  using assms by (simp add: sw_eval split: option.split)

subsection \<open>Install\<close>

lemma storage_match_append_empty:
  "storage_match (cs @ [(n, [])]) u = storage_match cs u"
  by (induction cs) (auto split: option.split)

lemma storage_match_caches_open:
  "storage_match (caches_open n cs) u = storage_match cs u"
  by (simp add: caches_open_def storage_match_append_empty)

lemma map_of_filter_other:
  "map_of (filter (\<lambda>e. fst e \<noteq> u) c) k = (if k = u then None else map_of c k)"
  by (induction c) auto

lemma map_of_cache_put:
  "map_of (cache_put u r c) k = (if k = u then Some r else map_of c k)"
  by (auto simp: cache_put_def map_add_def map_of_filter_other split: option.split)

lemma map_of_put_all:
  "map_of (put_all es c) k = (case map_of (rev es) k of Some r \<Rightarrow> Some r | None \<Rightarrow> map_of c k)"
proof (induction es arbitrary: c)
  case Nil
  then show ?case by simp
next
  case (Cons e es)
  obtain u r where e: "e = (u, r)" by (cases e)
  show ?case
    by (simp add: e Cons.IH map_of_cache_put map_add_def split: option.split)
qed

lemma map_of_rev_responses_of:
  "u \<in> set us \<Longrightarrow> map_of (rev (responses_of net us)) u = net u"
proof (induction us)
  case Nil
  then show ?case by simp
next
  case (Cons a us)
  have notin: "k \<notin> set us \<Longrightarrow> map_of (rev (responses_of net us)) k = None" for k
    by (induction us) (auto simp: map_add_def split: option.splits)
  show ?case
  proof (cases "u \<in> set us")
    case True
    with Cons.IH show ?thesis
      by (cases "net u"; cases "net a") (auto simp: map_add_def split: option.splits)
  next
    case False
    with Cons.prems have "u = a" by simp
    with False notin [of u] show ?thesis
      by (cases "net a") (auto simp: map_add_def)
  qed
qed

lemma map_of_update_container:
  "map_of (update_container n f cs) n = map_option f (map_of cs n)"
  by (induction cs) (auto simp: update_container_def)

lemma map_of_caches_open:
  "\<exists>c. map_of (caches_open n cs) n = Some c \<and> (map_of cs n = None \<longrightarrow> c = []) \<and>
     (\<forall>c0. map_of cs n = Some c0 \<longrightarrow> c = c0)"
proof (cases "n \<in> set (map fst cs)")
  case True
  then obtain c0 where "map_of cs n = Some c0"
    by (metis map_of_eq_None_iff not_Some_eq set_map)
  with True show ?thesis by (simp add: caches_open_def)
next
  case False
  then have "map_of cs n = None"
    by (simp add: map_of_eq_None_iff)
  with False show ?thesis
    by (simp add: caches_open_def map_add_def)
qed

text \<open>
  C2, as the claim states it, fails: with one CDN URL unreachable, no manifest entry is
  in the cache after install, not even the ones the network answered.
\<close>

theorem install_one_failure_caches_nothing_counterexample:
  "network (fresh_worker cdn_down) ''/index.html'' = Some shell_doc \<and>
   network (fresh_worker cdn_down) ''https://cdn.tailwindcss.com'' = None \<and>
   caches (snd (on_install (fresh_worker cdn_down))) = [(CACHE_NAME, [])] \<and>
   storage_match (caches (snd (on_install (fresh_worker cdn_down)))) ''/index.html'' = None"
  by (simp add: on_install_def cache_addAll_def caches_open_def fresh_worker_def cdn_down_def
      online_def URLS_TO_CACHE_def addAll_accepts_def shell_doc_def script_doc_def cdn_doc_def)

text \<open>
  C2, amended. The install never fails, and every manifest URL is requested. The batch
  is stored as a whole or not at all: when the network answers every manifest URL with
  an ok status, the container of the current version holds, for each manifest URL, the
  response the network gave; when any of them fails, the failure is logged once and the
  cache storage holds what it held before, apart from the (possibly new, empty)
  container of the current version.
\<close>

theorem install_tolerates_failure_all_or_nothing:
  "fst (on_install s) = Fulfilled Undefined \<and>
   requested (snd (on_install s)) = requested s @ URLS_TO_CACHE \<and>
   (list_all (\<lambda>u. addAll_accepts (network s u)) URLS_TO_CACHE \<longrightarrow>
      sw_console (snd (on_install s)) = sw_console s \<and>
      (\<exists>c. map_of (caches (snd (on_install s))) CACHE_NAME = Some c \<and>
           (\<forall>u \<in> set URLS_TO_CACHE. map_of c u = network s u))) \<and>
   (\<not> list_all (\<lambda>u. addAll_accepts (network s u)) URLS_TO_CACHE \<longrightarrow>
      sw_console (snd (on_install s)) =
        sw_console s @ [''Cache addAll failed TypeError: Failed to execute addAll on Cache''] \<and>
      caches (snd (on_install s)) = caches_open CACHE_NAME (caches s) \<and>
      (\<forall>u. storage_match (caches (snd (on_install s))) u = storage_match (caches s) u))"
proof -
  have always: "fst (on_install s) = Fulfilled Undefined \<and>
      requested (snd (on_install s)) = requested s @ URLS_TO_CACHE"
    by (simp add: on_install_def cache_addAll_def Let_def)
  have good: "sw_console (snd (on_install s)) = sw_console s \<and>
      (\<exists>c. map_of (caches (snd (on_install s))) CACHE_NAME = Some c \<and>
           (\<forall>u \<in> set URLS_TO_CACHE. map_of c u = network s u))"
    if ok: "list_all (\<lambda>u. addAll_accepts (network s u)) URLS_TO_CACHE"
  proof -
    obtain c0 where c0: "map_of (caches_open CACHE_NAME (caches s)) CACHE_NAME = Some c0"
      using map_of_caches_open by blast
    have cs: "caches (snd (on_install s)) =
        update_container CACHE_NAME (put_all (responses_of (network s) URLS_TO_CACHE))
          (caches_open CACHE_NAME (caches s))"
      using ok by (simp add: on_install_def cache_addAll_def Let_def)
    have look: "map_of (caches (snd (on_install s))) CACHE_NAME =
        Some (put_all (responses_of (network s) URLS_TO_CACHE) c0)"
      by (simp add: cs map_of_update_container c0)
    have "map_of (put_all (responses_of (network s) URLS_TO_CACHE) c0) u = network s u"
      if u: "u \<in> set URLS_TO_CACHE" for u
    proof -
      from ok u have "addAll_accepts (network s u)"
        by (simp add: list_all_iff)
      then obtain r where "network s u = Some r"
        by (auto simp: addAll_accepts_def split: option.splits)
      with u show ?thesis
        by (simp add: map_of_put_all map_of_rev_responses_of)
    qed
    moreover have "sw_console (snd (on_install s)) = sw_console s"
      using ok by (simp add: on_install_def cache_addAll_def Let_def)
    ultimately show ?thesis
      using look by simp
  qed
  have bad: "sw_console (snd (on_install s)) =
        sw_console s @ [''Cache addAll failed TypeError: Failed to execute addAll on Cache''] \<and>
      caches (snd (on_install s)) = caches_open CACHE_NAME (caches s) \<and>
      (\<forall>u. storage_match (caches (snd (on_install s))) u = storage_match (caches s) u)"
    if "\<not> list_all (\<lambda>u. addAll_accepts (network s u)) URLS_TO_CACHE"
    using that by (simp add: on_install_def cache_addAll_def Let_def storage_match_caches_open)
  from always good bad show ?thesis
    by blast
qed

theorem install_tolerates_failure_all_or_nothing_witness:
  "list_all (\<lambda>u. addAll_accepts (network (fresh_worker online) u)) URLS_TO_CACHE \<and>
   fst (on_install (fresh_worker online)) = Fulfilled Undefined \<and>
   (\<exists>c. map_of (caches (snd (on_install (fresh_worker online)))) CACHE_NAME = Some c \<and>
        map_of c ''/index.html'' = Some shell_doc \<and>
        map_of c ''https://cdn.tailwindcss.com'' = Some cdn_doc) \<and>
   \<not> list_all (\<lambda>u. addAll_accepts (network (fresh_worker cdn_down) u)) URLS_TO_CACHE \<and>
   fst (on_install (fresh_worker cdn_down)) = Fulfilled Undefined \<and>
   sw_console (snd (on_install (fresh_worker cdn_down))) =
     [''Cache addAll failed TypeError: Failed to execute addAll on Cache''] \<and>
   storage_match (caches (snd (on_install (fresh_worker cdn_down)))) ''/'' = None"
proof -
  have ok: "list_all (\<lambda>u. addAll_accepts (network (fresh_worker online) u)) URLS_TO_CACHE"
    by (simp add: fresh_worker_def online_def URLS_TO_CACHE_def addAll_accepts_def
        shell_doc_def script_doc_def cdn_doc_def)
  have ko: "\<not> list_all (\<lambda>u. addAll_accepts (network (fresh_worker cdn_down) u)) URLS_TO_CACHE"
    by (simp add: fresh_worker_def cdn_down_def online_def URLS_TO_CACHE_def addAll_accepts_def
        shell_doc_def script_doc_def cdn_doc_def)
  have net: "network (fresh_worker online) ''/index.html'' = Some shell_doc"
    "network (fresh_worker online) ''https://cdn.tailwindcss.com'' = Some cdn_doc"
    by (simp_all add: fresh_worker_def online_def)
  have mem: "''/index.html'' \<in> set URLS_TO_CACHE" "''https://cdn.tailwindcss.com'' \<in> set URLS_TO_CACHE"
    by (simp_all add: URLS_TO_CACHE_def)
  have init: "sw_console (fresh_worker cdn_down) = []" "caches (fresh_worker cdn_down) = []"
    by (simp_all add: fresh_worker_def)
  from install_tolerates_failure_all_or_nothing [of "fresh_worker online"] ok
  obtain c where c: "map_of (caches (snd (on_install (fresh_worker online)))) CACHE_NAME = Some c"
    and all: "\<forall>u \<in> set URLS_TO_CACHE. map_of c u = network (fresh_worker online) u"
    and f1: "fst (on_install (fresh_worker online)) = Fulfilled Undefined"
    by blast
  from all mem net have "map_of c ''/index.html'' = Some shell_doc \<and>
      map_of c ''https://cdn.tailwindcss.com'' = Some cdn_doc"
    by simp
  with c have ex: "\<exists>c. map_of (caches (snd (on_install (fresh_worker online)))) CACHE_NAME = Some c \<and>
        map_of c ''/index.html'' = Some shell_doc \<and>
        map_of c ''https://cdn.tailwindcss.com'' = Some cdn_doc"
    by blast
  from install_tolerates_failure_all_or_nothing [of "fresh_worker cdn_down"] ko init
  have "fst (on_install (fresh_worker cdn_down)) = Fulfilled Undefined \<and>
   sw_console (snd (on_install (fresh_worker cdn_down))) =
     [''Cache addAll failed TypeError: Failed to execute addAll on Cache''] \<and>
   storage_match (caches (snd (on_install (fresh_worker cdn_down)))) ''/'' = None"
    by (simp add: storage_match_caches_open)
  with ok ko f1 ex show ?thesis
    by blast
qed

subsection \<open>Activate\<close>

lemma fold_delete_filter:
  "fold (\<lambda>cacheName cs. if cacheName \<notin> set W then caches_delete cacheName cs else cs) ns cs =
     filter (\<lambda>e. fst e \<in> set W \<or> fst e \<notin> set ns) cs"
proof (induction ns arbitrary: cs)
  case Nil
  then show ?case by simp
next
  case (Cons n ns)
  show ?case
  proof (cases "n \<in> set W")
    case True
    then have "filter (\<lambda>e. fst e \<in> set W \<or> fst e \<notin> set (n # ns)) cs =
        filter (\<lambda>e. fst e \<in> set W \<or> fst e \<notin> set ns) cs"
      by (intro filter_cong) auto
    with True Cons.IH show ?thesis by simp
  next
    case False
    then have "filter (\<lambda>e. fst e \<in> set W \<or> fst e \<notin> set (n # ns)) cs =
        filter (\<lambda>e. fst e \<in> set W \<or> fst e \<notin> set ns) (filter (\<lambda>e. fst e \<noteq> n) cs)"
      by (induction cs) auto
    with False Cons.IH show ?thesis by (simp add: caches_delete_def)
  qed
qed

lemma caches_on_activate:
  "caches (on_activate s) = filter (\<lambda>e. fst e = CACHE_NAME) (caches s)"
proof -
  have "filter (\<lambda>e. fst e \<in> set cacheWhitelist \<or> fst e \<notin> set (caches_keys (caches s))) (caches s) =
      filter (\<lambda>e. fst e = CACHE_NAME) (caches s)"
    by (intro filter_cong) (auto simp: cacheWhitelist_def caches_keys_def)
  then show ?thesis
    by (simp add: on_activate_def fold_delete_filter)
qed

lemma distinct_keys_filter_le_one:
  "distinct (map fst cs) \<Longrightarrow> length (filter (\<lambda>e. fst e = k) cs) \<le> 1"
proof (induction cs)
  case Nil
  then show ?case by simp
next
  case (Cons e cs)
  show ?case
  proof (cases "fst e = k")
    case True
    with Cons.prems have "\<forall>x \<in> set cs. fst x \<noteq> k"
      by (force simp: image_iff)
    then have "filter (\<lambda>e. fst e = k) cs = []"
      by (simp add: filter_empty_conv)
    with True show ?thesis by simp
  next
    case False
    with Cons show ?thesis by simp
  qed
qed

text \<open>
  C6. After activation every remaining container is named by the current version tag:
  the containers of every other name are gone, whatever was there before, and the
  container of the current version is kept with its content. Container names are unique
  in a cache storage, so at most one container remains.
\<close>

theorem activate_keeps_only_current_version:
  "set (caches_keys (caches (on_activate s))) \<subseteq> {CACHE_NAME} \<and>
   map_of (caches (on_activate s)) CACHE_NAME = map_of (caches s) CACHE_NAME \<and>
   (distinct (caches_keys (caches s)) \<longrightarrow> length (caches (on_activate s)) \<le> 1)"
proof -
  have same: "map_of (filter (\<lambda>e. fst e = k) cs) k = map_of cs k" for cs :: cache_storage and k
    by (induction cs) auto
  have names: "set (caches_keys (caches (on_activate s))) \<subseteq> {CACHE_NAME}"
    by (auto simp: caches_on_activate caches_keys_def)
  have one: "length (caches (on_activate s)) \<le> 1" if "distinct (caches_keys (caches s))"
    using that unfolding caches_on_activate caches_keys_def
    by (rule distinct_keys_filter_le_one)
  from names one show ?thesis
    by (simp add: caches_on_activate same)
qed

theorem activate_keeps_only_current_version_witness:
  "distinct (caches_keys (caches old_and_new)) \<and> length (caches old_and_new) = 3 \<and>
   caches (on_activate old_and_new) = [(CACHE_NAME, [(''/App.tsx'', script_doc)])] \<and>
   length (caches (on_activate old_and_new)) \<le> 1"
proof -
  have d: "distinct (caches_keys (caches old_and_new))"
    by (simp add: old_and_new_def caches_keys_def CACHE_NAME_def)
  have c: "caches (on_activate old_and_new) = [(CACHE_NAME, [(''/App.tsx'', script_doc)])]"
    by (simp add: on_activate_def old_and_new_def caches_keys_def caches_delete_def
        cacheWhitelist_def CACHE_NAME_def)
  have l: "length (caches old_and_new) = 3"
    by (simp add: old_and_new_def)
  from activate_keeps_only_current_version [of old_and_new] d c l show ?thesis
    by simp
qed

subsection \<open>Fetch interception\<close>

text \<open>
  C7. A request that is not a navigation and whose URL has a stored response is
  answered with that response and the state is left as it was: no network request is
  issued. When nothing is stored for the URL, exactly one network request for it is
  issued and its result is the answer.
\<close>

theorem cache_first_hit_issues_no_request:
  assumes "mode request \<noteq> ''navigate''"
  shows
    "(\<forall>r. storage_match (caches s) (url request) = Some r \<longrightarrow>
        handle_fetch request s = (Served r, s) \<and>
        requested (snd (handle_fetch request s)) = requested s) \<and>
     (storage_match (caches s) (url request) = None \<longrightarrow>
        requested (snd (handle_fetch request s)) = requested s @ [url request] \<and>
        fst (handle_fetch request s) =
          (case network s (url request) of Some r \<Rightarrow> Served r | None \<Rightarrow> NetworkError))"
  using assms by (auto simp: sw_eval split: option.split)

theorem cache_first_hit_issues_no_request_witness:
  "mode \<lparr>url = ''/App.tsx'', mode = ''no-cors''\<rparr> \<noteq> ''navigate'' \<and>
   storage_match (caches cached_script) ''/App.tsx'' = Some script_doc \<and>
   network cached_script ''/App.tsx'' = Some cdn_doc \<and>
   handle_fetch \<lparr>url = ''/App.tsx'', mode = ''no-cors''\<rparr> cached_script =
     (Served script_doc, cached_script) \<and>
   storage_match (caches cached_script) ''/index.tsx'' = None \<and>
   requested (snd (handle_fetch \<lparr>url = ''/index.tsx'', mode = ''no-cors''\<rparr> cached_script)) =
     [''/index.tsx''] \<and>
   fst (handle_fetch \<lparr>url = ''/index.tsx'', mode = ''no-cors''\<rparr> cached_script) =
     Served script_doc"
proof -
  have m: "mode \<lparr>url = u, mode = ''no-cors''\<rparr> \<noteq> ''navigate''" for u
    by simp
  have hit: "storage_match (caches cached_script) ''/App.tsx'' = Some script_doc"
    by (simp add: cached_script_def)
  have miss: "storage_match (caches cached_script) ''/index.tsx'' = None"
    by (simp add: cached_script_def)
  have net: "network cached_script ''/App.tsx'' = Some cdn_doc"
    "network cached_script ''/index.tsx'' = Some script_doc"
    "requested cached_script = []"
    by (simp_all add: cached_script_def)
  from cache_first_hit_issues_no_request
      [of "\<lparr>url = ''/App.tsx'', mode = ''no-cors''\<rparr>" cached_script]
    cache_first_hit_issues_no_request
      [of "\<lparr>url = ''/index.tsx'', mode = ''no-cors''\<rparr>" cached_script]
    m hit miss net
  show ?thesis
    by simp
qed

text \<open>
  C8. Handling a fetch event, of either kind, leaves the cache storage as it was.
\<close>

theorem fetch_never_writes_cache:
  "caches (snd (handle_fetch request s)) = caches s"
  by (simp add: sw_eval split: option.split js_promise.split prod.split)

section \<open>Properties of loading a template\<close>

lemma newRows_fields:
  "map van (fst (newRows c vs)) = vs \<and>
   map id_row (fst (newRows c vs)) = [c ..< c + length vs] \<and>
   map vanOut (fst (newRows c vs)) = replicate (length vs) [] \<and>
   map eWaybill (fst (newRows c vs)) = replicate (length vs) [] \<and>
   map invoice (fst (newRows c vs)) = replicate (length vs) [] \<and>
   snd (newRows c vs) = c + length vs"
proof (induction vs arbitrary: c)
  case Nil
  then show ?case by simp
next
  case (Cons v vs)
  obtain rs c2 where r: "newRows (Suc c) vs = (rs, c2)"
    by (cases "newRows (Suc c) vs")
  have ids: "[c ..< c + length (v # vs)] = c # [Suc c ..< Suc c + length vs]"
    by (simp add: upt_conv_Cons del: upt_Suc)
  from Cons.IH [of "Suc c"] r show ?case
    unfolding ids by (simp add: randomUUID_def)
qed

text \<open>
  C5, as the claim states it, fails: with a table that is not empty and the
  confirmation declined, a template that is found by name is not loaded.
\<close>

theorem load_declined_keeps_rows_counterexample:
  "find (\<lambda>t. name t = ''south'') (templates loaded_table) =
     Some \<lparr>name = ''south'', vans = [''CJB-TVL'', ''CJB-PON'']\<rparr> \<and>
   rows (handleLoadTemplate ''south'' False loaded_table) = rows loaded_table \<and>
   map van (rows (handleLoadTemplate ''south'' False loaded_table)) = [''CJB-PON'']"
  by (simp add: handleLoadTemplate_def loaded_table_def demo_templates_def)

text \<open>
  C5, amended. When a name is selected and the table is empty or the replacement is
  confirmed, a template found by that name replaces the table: one row per van, in the
  template's order, the \<^verbatim>\<open>van\<close> copied, the other fields empty, and the ids are the next
  tokens of \<^verbatim>\<open>crypto.randomUUID\<close>, none of them handed out before and all different.
  When no template has that name, or the confirmation is declined, the rows stay as they
  were.
\<close>

theorem load_template_replaces_rows:
  "(templateName \<noteq> [] \<and> (rows s = [] \<or> confirmed) \<and>
    find (\<lambda>t. name t = templateName) (templates s) = Some t \<longrightarrow>
      length (rows (handleLoadTemplate templateName confirmed s)) = length (vans t) \<and>
      map van (rows (handleLoadTemplate templateName confirmed s)) = vans t \<and>
      map id_row (rows (handleLoadTemplate templateName confirmed s)) =
        [uuid_count s ..< uuid_count s + length (vans t)] \<and>
      distinct (map id_row (rows (handleLoadTemplate templateName confirmed s))) \<and>
      uuid_count (handleLoadTemplate templateName confirmed s) = uuid_count s + length (vans t) \<and>
      map vanOut (rows (handleLoadTemplate templateName confirmed s)) =
        replicate (length (vans t)) [] \<and>
      map eWaybill (rows (handleLoadTemplate templateName confirmed s)) =
        replicate (length (vans t)) [] \<and>
      map invoice (rows (handleLoadTemplate templateName confirmed s)) =
        replicate (length (vans t)) []) \<and>
   (find (\<lambda>t. name t = templateName) (templates s) = None \<longrightarrow>
      rows (handleLoadTemplate templateName confirmed s) = rows s) \<and>
   (rows s \<noteq> [] \<and> \<not> confirmed \<longrightarrow>
      rows (handleLoadTemplate templateName confirmed s) = rows s)"
proof -
  let ?s' = "handleLoadTemplate templateName confirmed s"
  have found: "rows ?s' = fst (newRows (uuid_count s) (vans t)) \<and>
      uuid_count ?s' = snd (newRows (uuid_count s) (vans t))"
    if "templateName \<noteq> [] \<and> (rows s = [] \<or> confirmed) \<and>
      find (\<lambda>t. name t = templateName) (templates s) = Some t"
    using that by (auto simp: handleLoadTemplate_def split: prod.split)
  have len: "length (fst (newRows c vs)) = length vs" for c vs
    using newRows_fields [of c vs] by (metis length_map)
  have dist: "distinct (map id_row (fst (newRows c vs)))" for c vs
    using newRows_fields [of c vs] by simp
  have loaded: "length (rows ?s') = length (vans t) \<and>
      map van (rows ?s') = vans t \<and>
      map id_row (rows ?s') = [uuid_count s ..< uuid_count s + length (vans t)] \<and>
      distinct (map id_row (rows ?s')) \<and>
      uuid_count ?s' = uuid_count s + length (vans t) \<and>
      map vanOut (rows ?s') = replicate (length (vans t)) [] \<and>
      map eWaybill (rows ?s') = replicate (length (vans t)) [] \<and>
      map invoice (rows ?s') = replicate (length (vans t)) []"
    if "templateName \<noteq> [] \<and> (rows s = [] \<or> confirmed) \<and>
      find (\<lambda>t. name t = templateName) (templates s) = Some t"
    using found [OF that] len dist newRows_fields [of "uuid_count s" "vans t"]
    by simp
  have absent: "rows ?s' = rows s"
    if "find (\<lambda>t. name t = templateName) (templates s) = None"
    using that by (simp add: handleLoadTemplate_def)
  have declined: "rows ?s' = rows s"
    if "rows s \<noteq> [] \<and> \<not> confirmed"
    using that by (simp add: handleLoadTemplate_def)
  from loaded absent declined show ?thesis
    by blast
qed

theorem load_template_replaces_rows_witness:
  "find (\<lambda>t. name t = ''south'') (templates loaded_table) =
     Some \<lparr>name = ''south'', vans = [''CJB-TVL'', ''CJB-PON'']\<rparr> \<and>
   rows (handleLoadTemplate ''south'' True loaded_table) =
     [\<lparr>id_row = 1, van = ''CJB-TVL'', eWaybill = [], invoice = [], vanOut = []\<rparr>,
      \<lparr>id_row = 2, van = ''CJB-PON'', eWaybill = [], invoice = [], vanOut = []\<rparr>] \<and>
   map id_row (rows (handleLoadTemplate ''south'' True loaded_table)) = [1, 2] \<and>
   find (\<lambda>t. name t = ''west'') (templates loaded_table) = None \<and>
   rows (handleLoadTemplate ''west'' True loaded_table) = rows loaded_table \<and>
   rows loaded_table \<noteq> [] \<and>
   rows (handleLoadTemplate ''south'' False loaded_table) = rows loaded_table"
proof -
  have f: "find (\<lambda>t. name t = ''south'') (templates loaded_table) =
      Some \<lparr>name = ''south'', vans = [''CJB-TVL'', ''CJB-PON'']\<rparr>"
    by (simp add: loaded_table_def demo_templates_def)
  have g: "find (\<lambda>t. name t = ''west'') (templates loaded_table) = None"
    by (simp add: loaded_table_def demo_templates_def)
  have r: "rows loaded_table \<noteq> []" "uuid_count loaded_table = 1"
    by (simp_all add: loaded_table_def)
  have e: "rows (handleLoadTemplate ''south'' True loaded_table) =
     [\<lparr>id_row = 1, van = ''CJB-TVL'', eWaybill = [], invoice = [], vanOut = []\<rparr>,
      \<lparr>id_row = 2, van = ''CJB-PON'', eWaybill = [], invoice = [], vanOut = []\<rparr>]"
    by (simp add: handleLoadTemplate_def loaded_table_def demo_templates_def randomUUID_def)
  have i: "[1 ..< 1 + length [''CJB-TVL'', ''CJB-PON'']] = [1, 2 :: nat]"
    by (simp add: upt_conv_Cons)
  from load_template_replaces_rows
      [of "''south''" loaded_table True "\<lparr>name = ''south'', vans = [''CJB-TVL'', ''CJB-PON'']\<rparr>"]
    load_template_replaces_rows [of "''west''" loaded_table True]
    load_template_replaces_rows [of "''south''" loaded_table False]
    f g r e i
  show ?thesis
    by simp
qed

end
